theory Spec2Isabelle
  imports Complex_Main "HOL-Library.Extended_Nat" "HOL-Library.Sublist"
begin

section \<open>The feature tracker of featuretracker.py\<close>

text \<open>
  Python exceptions are values of \<open>pyerror\<close>; a method that mutates the player returns
  the exception it raised, if any, together with the player as the call left it.
\<close>

datatype pyerror = TypeError | IndexError | ValueError | NameError | CapabilityError

subsection \<open>float32 arithmetic\<close>

text \<open>
  Every coordinate of the tracker is a numpy float32: the arrays that OpenCV returns
  are float32 arrays, \<open>np.float32\<close> converts the corners and the last points (lines 175
  and 195, the identity on float32 values), and the numbers handed to \<open>addPoint\<close> are
  the float32 entries of these arrays. A coordinate is modelled as the real number it
  denotes. Subtracting two of them gives the float32 nearest to the exact difference,
  ties going to the even significand: \<open>rne\<close> rounds a real to the nearest integer with
  ties to even, \<open>ulp32 r\<close> is the distance between neighbouring float32 values around
  \<open>r\<close> (24 significant bits, and \<open>2 powr - 149\<close> in the subnormal range), and
  \<open>float32 r\<close> is \<open>r\<close> rounded to a multiple of it. A result of magnitude
  \<open>2 powr 128\<close> or more stands for the infinity that numpy returns there; it compares
  with 1 as infinity does.
\<close>

definition rne :: "real \<Rightarrow> int" where
  "rne t =
     (let f = \<lfloor>t\<rfloor>; d = t - of_int f
      in if d < 1/2 then f else if d > 1/2 then f + 1 else if even f then f else f + 1)"

definition ulp32 :: "real \<Rightarrow> real" where
  "ulp32 r = 2 powr (of_int (max \<lfloor>log 2 \<bar>r\<bar>\<rfloor> (- 126)) - 23)"

definition float32 :: "real \<Rightarrow> real" where
  "float32 r = (if r = 0 then 0 else sgn r * of_int (rne (\<bar>r\<bar> / ulp32 r)) * ulp32 r)"

subsection \<open>Point (lines 45-78)\<close>

record point =
  x :: real
  y :: real

definition Point :: "real \<Rightarrow> real \<Rightarrow> point" where
  "Point a b = \<lparr>x = a, y = b\<rparr>"

text \<open>\<open>__sub__\<close> (lines 59-60): two float32 subtractions.\<close>

definition Point_sub :: "point \<Rightarrow> point \<Rightarrow> point" where
  "Point_sub self p = Point (float32 (x self - x p)) (float32 (y self - y p))"

text \<open>
  \<open>def __neg__(self, p)\<close> declares a second positional parameter. A call binds
  \<open>self\<close> and the further arguments; with any number of further arguments other
  than one, Python raises TypeError before the body runs.
\<close>

definition Point_neg :: "point \<Rightarrow> point list \<Rightarrow> pyerror + point" where
  "Point_neg self args =
     (case args of [p] \<Rightarrow> Inr (Point (- x self) (- y self)) | _ \<Rightarrow> Inl TypeError)"

text \<open>The expression \<open>-p\<close> calls \<open>type(p).__neg__(p)\<close>: no further argument.\<close>

definition unary_minus :: "point \<Rightarrow> pyerror + point" where
  "unary_minus p = Point_neg p []"

subsection \<open>Track (lines 80-108)\<close>

text \<open>The display colour of a track is drawn at random and read by the renderer only;
  it is left out.\<close>

record track =
  trackId :: int
  smoothingWindow :: int
  points :: "point list"
  velocity :: "point list"
  lastVel :: "point option"
  lastPos :: "point option"
  smoothedVel :: "point option"

definition Track :: "int \<Rightarrow> track" where
  "Track tid = \<lparr>trackId = tid, smoothingWindow = 5, points = [], velocity = [],
                lastVel = None, lastPos = None, smoothedVel = None\<rparr>"

definition numPoints :: "track \<Rightarrow> nat" where
  "numPoints self = length (points self)"

definition addPoint :: "track \<Rightarrow> real \<Rightarrow> real \<Rightarrow> track" where
  "addPoint self a b =
     (let self1 = self\<lparr>lastPos := Some (Point a b)\<rparr>;
          self2 = (if length (points self1) > 0
                   then (let v = Point_sub (Point a b) (last (points self1))
                         in self1\<lparr>lastVel := Some v, velocity := velocity self1 @ [v]\<rparr>)
                   else self1)
      in self2\<lparr>points := points self2 @ [Point a b]\<rparr>)"

text \<open>\<open>self.points.pop(0)\<close> raises IndexError on an empty list.\<close>

definition removeOldest :: "track \<Rightarrow> pyerror + track" where
  "removeOldest self =
     (case points self of [] \<Rightarrow> Inl IndexError
      | p # ps \<Rightarrow> Inr (self\<lparr>points := ps\<rparr>))"

subsection \<open>featureTrackerPlayer (lines 110-221)\<close>

text \<open>
  \<open>posFrames\<close> is the frame index kept by the base player. \<open>maxTrackLength\<close> is
  \<open>np.inf\<close> by default: an extended natural number.
\<close>

record player =
  posFrames :: int
  lastFrameDrawn :: int
  maxTrackLength :: enat
  detectionInterval :: int
  lastDetectionFrame :: int
  tracks :: "track list"

definition init_player :: "int \<Rightarrow> player" where
  "init_player interval =
     \<lparr>posFrames = 0, lastFrameDrawn = - 1, maxTrackLength = \<infinity>,
      detectionInterval = interval, lastDetectionFrame = - 1, tracks = []\<rparr>"

text \<open>
  What one frame's images do to the tracker. \<open>lkForward\<close> is the OpenCV call of line
  199 and \<open>lkBackward\<close> the call of line 202, each from the source points to the
  estimated points and the per-point status flags; \<open>corners\<close> is the result of
  \<open>goodFeaturesToTrack\<close> at line 173 (\<open>None\<close> when it finds nothing). Each may raise.
  \<open>drawing\<close> is the outcome of lines 227-241 of \<open>drawTrack\<close> for a track on this
  frame's mask and image: \<open>None\<close> when they return, and \<open>Some NameError\<close> when the
  mask passes the tests of lines 233 and 236, so that line 239 is reached and reads
  the undefined name \<open>i\<close>.
\<close>

record frame =
  lkForward :: "point list \<Rightarrow> pyerror + (point list \<times> bool list)"
  lkBackward :: "point list \<Rightarrow> pyerror + (point list \<times> bool list)"
  corners :: "pyerror + point list option"
  drawing :: "track \<Rightarrow> pyerror option"

definition resetTracks :: "player \<Rightarrow> player" where
  "resetTracks self = self\<lparr>tracks := []\<rparr>"

text \<open>The loop of lines 175-181: each corner becomes a track whose id is the current
  number of tracks.\<close>

fun spawnLoop :: "track list \<Rightarrow> point list \<Rightarrow> track list" where
  "spawnLoop ts [] = ts"
| "spawnLoop ts (c # cs) =
     (let tid = int (length ts);
          t = addPoint (Track tid) (x c) (y c)
      in spawnLoop (ts @ [t]) cs)"

definition getNewTracks :: "frame \<Rightarrow> player \<Rightarrow> pyerror option \<times> player" where
  "getNewTracks f self =
     (case corners f of
        Inl e \<Rightarrow> (Some e, self)
      | Inr cs \<Rightarrow>
          (let self1 = (case cs of None \<Rightarrow> self
                        | Some ps \<Rightarrow> self\<lparr>tracks := spawnLoop (tracks self) ps\<rparr>)
           in (None, self1\<lparr>lastDetectionFrame := posFrames self1\<rparr>)))"

text \<open>Line 195: \<open>tr.points[-1]\<close> of every track; IndexError on a track without points.\<close>

fun lastPoints :: "track list \<Rightarrow> pyerror + point list" where
  "lastPoints [] = Inr []"
| "lastPoints (tr # trs) =
     (if points tr = [] then Inl IndexError
      else (case lastPoints trs of Inl e \<Rightarrow> Inl e
            | Inr ps \<Rightarrow> Inr (last (points tr) # ps)))"

text \<open>Line 205 for one pair of points: the larger of the absolute values of the two
  float32 differences.\<close>

definition discrepancy :: "point \<Rightarrow> point \<Rightarrow> real" where
  "discrepancy p q = max \<bar>float32 (x p - x q)\<bar> \<bar>float32 (y p - y q)\<bar>"

text \<open>
  Line 205 for the arrays: \<open>p0 - p0r\<close> on shapes (n,1,2) and (m,1,2) subtracts row by
  row when n = m, repeats the single row when one of them is 1, and raises ValueError
  otherwise.
\<close>

definition discrepancies :: "point list \<Rightarrow> point list \<Rightarrow> pyerror + real list" where
  "discrepancies p0 p0r =
     (if length p0 = length p0r then Inr (map (\<lambda>(p, q). discrepancy p q) (zip p0 p0r))
      else if length p0r = 1 then Inr (map (\<lambda>p. discrepancy p (hd p0r)) p0)
      else if length p0 = 1 then Inr (map (\<lambda>q. discrepancy (hd p0) q) p0r)
      else Inl ValueError)"

text \<open>Lines 213-215, the body of the loop for a track that is kept.\<close>

definition extendOne :: "enat \<Rightarrow> track \<Rightarrow> point \<Rightarrow> pyerror + track" where
  "extendOne m tr p =
     (let tr1 = addPoint tr (x p) (y p)
      in if enat (numPoints tr1) > m then removeOldest tr1 else Inr tr1)"

text \<open>
  The loop of lines 209-216 over \<open>zip(self.tracks, p1, goodTracks)\<close>; the value is
  \<open>newTracks\<close>.
\<close>

fun extendLoop :: "enat \<Rightarrow> (track \<times> point \<times> bool) list \<Rightarrow> pyerror + track list" where
  "extendLoop m [] = Inr []"
| "extendLoop m ((tr, p, goodFlag) # rest) =
     (if \<not> goodFlag then extendLoop m rest
      else
        (case extendOne m tr p of
           Inl e \<Rightarrow> Inl e
         | Inr tr2 \<Rightarrow>
             (case extendLoop m rest of Inl e \<Rightarrow> Inl e
              | Inr newTracks \<Rightarrow> Inr (tr2 # newTracks))))"

text \<open>
  Lines 194-217. The status flags \<open>st\<close> of the forward call are overwritten by those
  of the backward call and neither is read. The OpenCV calls and the subtraction come
  before the loop, so an exception of theirs leaves the player as it was; the loop
  itself never raises (\<open>extendLoop_filter\<close> below).
\<close>

definition extendTracks :: "frame \<Rightarrow> player \<Rightarrow> pyerror option \<times> player" where
  "extendTracks f self =
     (if length (tracks self) > 0 then
        (case lastPoints (tracks self) of
           Inl e \<Rightarrow> (Some e, self)
         | Inr p0 \<Rightarrow>
        (case lkForward f p0 of
           Inl e \<Rightarrow> (Some e, self)
         | Inr (p1, st) \<Rightarrow>
        (case lkBackward f p1 of
           Inl e \<Rightarrow> (Some e, self)
         | Inr (p0r, st') \<Rightarrow>
        (case discrepancies p0 p0r of
           Inl e \<Rightarrow> (Some e, self)
         | Inr d \<Rightarrow>
        (let goodTracks = map (\<lambda>v. v < 1) d in
         (case extendLoop (maxTrackLength self) (zip (tracks self) (zip p1 goodTracks)) of
            Inl e \<Rightarrow> (Some e, self)
          | Inr newTracks \<Rightarrow> (None, self\<lparr>tracks := newTracks\<rparr>)))))))
      else (None, self))"

text \<open>The condition of line 190.\<close>

definition discontinuity :: "player \<Rightarrow> bool" where
  "discontinuity self \<longleftrightarrow>
     lastFrameDrawn self = - 1 \<or> lastFrameDrawn self > posFrames self
     \<or> (posFrames self - lastFrameDrawn self) > 1"

text \<open>The condition of line 220.\<close>

definition shouldDetect :: "player \<Rightarrow> bool" where
  "shouldDetect self \<longleftrightarrow>
     lastDetectionFrame self = - 1
     \<or> (posFrames self - lastDetectionFrame self) \<ge> detectionInterval self"

text \<open>Lines 189-221. The grey image of line 187 is an argument of the OpenCV calls
  only; it is part of \<open>frame\<close>.\<close>

definition trackFeatures :: "frame \<Rightarrow> player \<Rightarrow> pyerror option \<times> player" where
  "trackFeatures f self =
     (let self1 = (if discontinuity self then resetTracks self else self) in
      (case extendTracks f self1 of
         (Some e, self2) \<Rightarrow> (Some e, self2)
       | (None, self2) \<Rightarrow>
           (if shouldDetect self2 then getNewTracks f self2 else (None, self2))))"

text \<open>\<open>self.minFeatureTime\<close>, set at line 139 and never changed.\<close>

definition minFeatureTime :: nat where
  "minFeatureTime = 3"

text \<open>\<open>drawTrack\<close> (lines 223-241): a track with fewer points is not drawn at all.\<close>

definition drawTrack :: "frame \<Rightarrow> track \<Rightarrow> pyerror option" where
  "drawTrack f t = (if length (points t) \<ge> minFeatureTime then drawing f t else None)"

text \<open>The loop of lines 264-266; the first exception ends it.\<close>

fun drawTracks :: "frame \<Rightarrow> track list \<Rightarrow> pyerror option" where
  "drawTracks f [] = None"
| "drawTracks f (t # ts) =
     (case drawTrack f t of Some e \<Rightarrow> Some e | None \<Rightarrow> drawTracks f ts)"

text \<open>
  \<open>drawExtra\<close> (lines 254-268): the frame is tracked, the tracks are drawn and, when
  nothing was raised, the frame is recorded as the last frame drawn. The foreground
  mask of line 256 does not touch the fields of the model.
\<close>

definition drawExtra :: "frame \<Rightarrow> player \<Rightarrow> pyerror option \<times> player" where
  "drawExtra f self =
     (case trackFeatures f self of
        (Some e, self1) \<Rightarrow> (Some e, self1)
      | (None, self1) \<Rightarrow>
          (case drawTracks f (tracks self1) of
             Some e \<Rightarrow> (Some e, self1)
           | None \<Rightarrow> (None, self1\<lparr>lastFrameDrawn := posFrames self1\<rparr>)))"

text \<open>
  Modelled from the spec: the base player \<open>cvgui.cvPlayer\<close>, which is not part of the
  sources. The frame source supplies the index of each frame in turn and exactly one
  tracking step runs per frame: the base player sets \<open>posFrames\<close> to the index of each
  frame and draws it; the first exception ends the play.
\<close>

fun play :: "(int \<times> frame) list \<Rightarrow> player \<Rightarrow> pyerror option \<times> player" where
  "play [] self = (None, self)"
| "play ((i, f) # fs) self =
     (case drawExtra f (self\<lparr>posFrames := i\<rparr>) of
        (Some e, self1) \<Rightarrow> (Some e, self1)
      | (None, self1) \<Rightarrow> play fs self1)"

section \<open>The extended track as a total function\<close>

text \<open>
  Not a function of the source: the track that lines 213-215 leave, written without the
  error case. \<open>removeOldest\<close> is only called there on a track that has just received
  a point, so it cannot raise; \<open>extendOne_extended\<close> below proves that \<open>extendOne\<close>
  always returns this track.
\<close>

definition extended :: "enat \<Rightarrow> track \<Rightarrow> point \<Rightarrow> track" where
  "extended m tr p =
     (let tr1 = addPoint tr (x p) (y p)
      in if enat (numPoints tr1) > m then tr1\<lparr>points := tl (points tr1)\<rparr> else tr1)"

section \<open>Concrete points, tracks and frames\<close>

text \<open>All coordinates below are float32 values, and on every frame below the drawing of
  a track returns normally.\<close>

definition pA :: point where "pA = Point 0 0"
definition pB :: point where "pB = Point 1 1"
definition pC :: point where "pC = Point 2 1"

text \<open>A track with the two points \<open>pA\<close> and \<open>pB\<close>, as spawning and one extension
  leave it.\<close>

definition trAB :: track where
  "trAB = addPoint (addPoint (Track 0) 0 0) 1 1"

definition trD :: track where
  "trD = addPoint (Track 1) 5 5"

text \<open>Players in the middle of a play: frame 1 was drawn, frame 2 is the current one,
  the last detection ran at frame 0.\<close>

definition plAB :: player where
  "plAB = (init_player 5)\<lparr>posFrames := 2, lastFrameDrawn := 1, lastDetectionFrame := 0,
                          tracks := [trAB]\<rparr>"

definition plTwo :: player where
  "plTwo = (init_player 5)\<lparr>posFrames := 2, lastFrameDrawn := 1, lastDetectionFrame := 0,
                          tracks := [trAB, trD]\<rparr>"

text \<open>
  A player whose only track is at \<open>(1/8 + 2 powr - 26, 0)\<close>, and a frame on which its
  round trip ends at \<open>(9/8, 0)\<close>; both are float32 values. The exact difference is
  \<open>1 - 2 powr - 26\<close>, and the float32 nearest to it is 1.
\<close>

definition pNear :: point where
  "pNear = Point (1/8 + 1/2^26) 0"

definition plNear :: player where
  "plNear = (init_player 5)\<lparr>posFrames := 2, lastFrameDrawn := 1, lastDetectionFrame := 0,
                            tracks := [addPoint (Track 0) (1/8 + 1/2^26) 0]\<rparr>"

definition frNear :: frame where
  "frNear = \<lparr>lkForward = (\<lambda>ps. Inr ([Point (9/8) 0], [True])),
             lkBackward = (\<lambda>ps. Inr ([Point (9/8) 0], [True])),
             corners = Inr None,
             drawing = (\<lambda>t. None)\<rparr>"

text \<open>A frame on which the estimation reports failure for the only point, in both
  directions, and the round trip comes back to the very point it started from.\<close>

definition frFlagFalse :: frame where
  "frFlagFalse = \<lparr>lkForward = (\<lambda>ps. Inr ([pC], [False])),
                  lkBackward = (\<lambda>ps. Inr ([pB], [False])),
                  corners = Inr None,
                  drawing = (\<lambda>t. None)\<rparr>"

text \<open>A frame for two points: the first is reported as failed and comes back exactly,
  the second is reported as found and comes back exactly one pixel off.\<close>

definition frEdge :: frame where
  "frEdge = \<lparr>lkForward = (\<lambda>ps. Inr ([pC, Point 6 5], [False, True])),
             lkBackward = (\<lambda>ps. Inr ([pB, Point 6 5], [True, True])),
             corners = Inr None,
             drawing = (\<lambda>t. None)\<rparr>"

text \<open>Frames on which every point stays where it is and the round trip is exact:
  \<open>frSpawn cs\<close> detects the corners \<open>cs\<close>, \<open>frKeep\<close> detects nothing.\<close>

definition frSpawn :: "point list \<Rightarrow> frame" where
  "frSpawn cs = \<lparr>lkForward = (\<lambda>ps. Inr (ps, map (\<lambda>p. True) ps)),
                 lkBackward = (\<lambda>ps. Inr (ps, map (\<lambda>p. True) ps)),
                 corners = Inr (Some cs),
                 drawing = (\<lambda>t. None)\<rparr>"

definition frKeep :: frame where
  "frKeep = \<lparr>lkForward = (\<lambda>ps. Inr (ps, map (\<lambda>p. True) ps)),
             lkBackward = (\<lambda>ps. Inr (ps, map (\<lambda>p. True) ps)),
             corners = Inr None,
             drawing = (\<lambda>t. None)\<rparr>"

text \<open>A frame on which the round trip of the first point ends far away.\<close>

definition frDropFirst :: frame where
  "frDropFirst = \<lparr>lkForward = (\<lambda>ps. Inr (ps, map (\<lambda>p. True) ps)),
                  lkBackward = (\<lambda>ps. Inr (Point 9 9 # tl ps, map (\<lambda>p. True) ps)),
                  corners = Inr None,
                  drawing = (\<lambda>t. None)\<rparr>"

text \<open>A player whose last drawn frame is 10 and whose current frame is 20.\<close>

definition plJump :: player where
  "plJump = (init_player 5)\<lparr>posFrames := 20, lastFrameDrawn := 10, lastDetectionFrame := 10,
                           tracks := [trAB]\<rparr>"

text \<open>A player at frame 5, right after frame 4, whose last detection ran at frame 0:
  detection is due.\<close>

definition plDue :: player where
  "plDue = (init_player 5)\<lparr>posFrames := 5, lastFrameDrawn := 4, lastDetectionFrame := 0,
                          tracks := [trAB]\<rparr>"

text \<open>A frame with exact round trips on which the corner detection raises.\<close>

definition frDetectFails :: frame where
  "frDetectFails = \<lparr>lkForward = (\<lambda>ps. Inr (ps, map (\<lambda>p. True) ps)),
             lkBackward = (\<lambda>ps. Inr (ps, map (\<lambda>p. True) ps)),
             corners = Inl CapabilityError,
             drawing = (\<lambda>t. None)\<rparr>"

text \<open>A frame on which the backward estimation raises.\<close>

definition frFlowFails :: frame where
  "frFlowFails = \<lparr>lkForward = (\<lambda>ps. Inr (ps, map (\<lambda>p. True) ps)),
             lkBackward = (\<lambda>ps. Inl CapabilityError),
             corners = Inr (Some [pC]),
             drawing = (\<lambda>t. None)\<rparr>"

text \<open>A player with two tracks at frame 5, right after frame 4; detection is due.\<close>

definition plTwoDue :: player where
  "plTwoDue = (init_player 5)\<lparr>posFrames := 5, lastFrameDrawn := 4, lastDetectionFrame := 0,
                             tracks := [trAB, trD]\<rparr>"

text \<open>A frame on which the detection returns an empty array of corners.\<close>

definition frEmpty :: frame where
  "frEmpty = \<lparr>lkForward = (\<lambda>ps. Inr (ps, map (\<lambda>p. True) ps)),
              lkBackward = (\<lambda>ps. Inr (ps, map (\<lambda>p. True) ps)),
              corners = Inr (Some []),
              drawing = (\<lambda>t. None)\<rparr>"

section \<open>Properties\<close>

subsection \<open>float32 rounding\<close>

lemma float32_zero [simp]: "float32 0 = 0"
  by (simp add: float32_def)

lemma ulp32_eval:
  assumes "2 powr of_int e \<le> \<bar>r\<bar>" and "\<bar>r\<bar> < 2 powr (of_int e + 1)" and "- 126 \<le> e"
  shows "ulp32 r = 2 powr (of_int e - 23)"
proof -
  have "0 < \<bar>r\<bar>"
    using assms(1) powr_gt_zero [of 2 "of_int e"] by linarith
  then have "\<lfloor>log 2 \<bar>r\<bar>\<rfloor> = e"
    using assms(1,2) by (simp add: floor_log_eq_powr_iff)
  then show ?thesis
    using assms(3) by (simp add: ulp32_def max_def)
qed

lemma float32_eval:
  assumes "2 powr of_int e \<le> \<bar>r\<bar>" and "\<bar>r\<bar> < 2 powr (of_int e + 1)" and "- 126 \<le> e"
  shows "float32 r = sgn r * of_int (rne (\<bar>r\<bar> / 2 powr (of_int e - 23))) * 2 powr (of_int e - 23)"
proof -
  have "r \<noteq> 0"
    using assms(1) powr_gt_zero [of 2 "of_int e"] by auto
  then show ?thesis
    by (simp add: float32_def ulp32_eval [OF assms])
qed

lemma float32_m1: "float32 (- 1) = - 1"
  using float32_eval [of 0 "- 1"] by (simp add: rne_def powr_neg_numeral)

lemma float32_1: "float32 1 = 1"
  using float32_eval [of 0 "1"] by (simp add: rne_def powr_neg_numeral)

lemma float32_m9: "float32 (- 9) = - 9"
  using float32_eval [of 3 "- 9"] by (simp add: rne_def powr_neg_numeral)

lemma float32_near_m1: "float32 (- (1 - 1/2^26)) = - 1"
  using float32_eval [of "- 1" "- (1 - 1/2^26)"] by (simp add: rne_def powr_neg_numeral)

lemma rne_le: "t \<le> of_int N \<Longrightarrow> rne t \<le> N"
  unfolding rne_def Let_def by (auto; linarith)

lemma rne_ge: "of_int N \<le> t \<Longrightarrow> N \<le> rne t"
  unfolding rne_def Let_def by (auto; linarith)

lemma rne_less_even:
  assumes "even N"
  shows "rne t < N \<longleftrightarrow> t < of_int N - 1/2"
proof
  assume a: "rne t < N"
  show "t < of_int N - 1/2"
  proof (rule ccontr)
    assume "\<not> t < of_int N - 1/2"
    then have b: "of_int N - 1/2 \<le> t" by simp
    then have f: "N - 1 \<le> \<lfloor>t\<rfloor>" by linarith
    show False
    proof (cases "N \<le> \<lfloor>t\<rfloor>")
      case True
      then have "of_int N \<le> t" by linarith
      from rne_ge [OF this] a show False by simp
    next
      case False
      with f have g: "\<lfloor>t\<rfloor> = N - 1" by simp
      then have "odd \<lfloor>t\<rfloor>" using assms by simp
      moreover have "t - of_int \<lfloor>t\<rfloor> \<ge> 1/2" using b g by simp
      ultimately have "rne t = N"
        using g by (auto simp add: rne_def Let_def)
      with a show False by simp
    qed
  qed
next
  assume a: "t < of_int N - 1/2"
  then have f: "\<lfloor>t\<rfloor> \<le> N - 1" by linarith
  show "rne t < N"
  proof (cases "\<lfloor>t\<rfloor> = N - 1")
    case True
    then have "t - of_int \<lfloor>t\<rfloor> < 1/2" using a by simp
    then show ?thesis using True by (simp add: rne_def Let_def)
  next
    case False
    with f have "\<lfloor>t\<rfloor> + 1 < N" by simp
    then show ?thesis by (auto simp add: rne_def Let_def)
  qed
qed

lemma ulp32_pos: "0 < ulp32 r"
  by (simp add: ulp32_def)

lemma float32_abs: "\<bar>float32 r\<bar> = of_int (rne (\<bar>r\<bar> / ulp32 r)) * ulp32 r"
proof (cases "r = 0")
  case True
  then show ?thesis by (simp add: rne_def)
next
  case False
  have "0 \<le> \<bar>r\<bar> / ulp32 r"
    using ulp32_pos [of r] by simp
  then have "0 \<le> rne (\<bar>r\<bar> / ulp32 r)"
    using rne_ge [of 0] by simp
  then show ?thesis
    using False ulp32_pos [of r] by (simp add: float32_def abs_mult)
qed

lemma float32_lt_one: "\<bar>float32 r\<bar> < 1 \<longleftrightarrow> \<bar>r\<bar> < 1 - 1/2^25"
proof (cases "r = 0")
  case True
  then show ?thesis by simp
next
  case False
  define a where "a = \<bar>r\<bar>"
  define e where "e = \<lfloor>log 2 a\<rfloor>"
  define u where "u = ulp32 r"
  have apos: "0 < a" using False by (simp add: a_def)
  have lo: "2 powr of_int e \<le> a" and hi: "a < 2 powr (of_int e + 1)"
    using floor_log_eq_powr_iff [of a 2 e] apos by (simp_all add: e_def)
  have u: "u = 2 powr (of_int (max e (- 126)) - 23)"
    by (simp add: u_def ulp32_def e_def a_def)
  have upos: "0 < u" by (simp add: u)
  have fl: "\<bar>float32 r\<bar> = of_int (rne (a / u)) * u"
    by (simp add: float32_abs a_def u_def)
  consider (big) "1 \<le> a" | (mid) "1/2 \<le> a" "a < 1" | (small) "a < 1/2"
    by linarith
  then show ?thesis
  proof cases
    case big
    have "0 \<le> e"
    proof (rule ccontr)
      assume "\<not> 0 \<le> e"
      then have "of_int e + 1 \<le> (0::real)" by linarith
      then have "2 powr (of_int e + 1) \<le> (2::real) powr 0"
        by (intro powr_mono) simp_all
      with hi big show False by simp
    qed
    then have u': "u = 2 powr (of_int e - 23)" by (simp add: u max_def)
    have "a / u \<ge> 2 powr of_int e / u"
      using lo upos by (simp add: divide_right_mono)
    moreover have "2 powr of_int e / u = 2 ^ 23"
      by (simp add: u' powr_diff)
    ultimately have "of_int (2 ^ 23) \<le> a / u" by simp
    from rne_ge [OF this] have "(2 ^ 23 :: real) \<le> of_int (rne (a / u))"
      by (metis of_int_le_iff of_int_numeral of_int_power)
    then have "2 ^ 23 * u \<le> of_int (rne (a / u)) * u"
      using upos by simp
    moreover have "2 ^ 23 * u = 2 powr of_int e"
      by (simp add: u' powr_diff)
    moreover have "(1::real) \<le> 2 powr of_int e"
      using \<open>0 \<le> e\<close> by (simp add: ge_one_powr_ge_zero)
    ultimately have "1 \<le> \<bar>float32 r\<bar>" using fl by linarith
    then show ?thesis using big by (simp add: a_def)
  next
    case mid
    have "e = - 1"
      using floor_log_eq_powr_iff [of a 2 "- 1"] apos mid by (simp add: e_def powr_minus)
    then have u': "u = 1 / 2 ^ 24"
      by (simp add: u powr_neg_numeral)
    have "\<bar>float32 r\<bar> < 1 \<longleftrightarrow> rne (a / u) < 2 ^ 24"
    proof -
      have "\<bar>float32 r\<bar> < 1 \<longleftrightarrow> of_int (rne (a / u)) < (2 ^ 24 :: real)"
        by (simp add: fl u' field_simps)
      also have "\<dots> \<longleftrightarrow> rne (a / u) < 2 ^ 24"
        by (metis of_int_less_iff of_int_numeral of_int_power)
      finally show ?thesis .
    qed
    also have "\<dots> \<longleftrightarrow> a / u < of_int (2 ^ 24) - 1/2"
      by (rule rne_less_even) simp
    also have "\<dots> \<longleftrightarrow> a < 1 - 1/2^25"
      by (simp add: u' field_simps)
    finally show ?thesis by (simp add: a_def)
  next
    case small
    define e' where "e' = max e (- 126)"
    have "e \<le> - 2"
    proof (rule ccontr)
      assume "\<not> e \<le> - 2"
      then have "(- 1 :: real) \<le> of_int e" by linarith
      then have "(2::real) powr (- 1) \<le> 2 powr of_int e"
        by (intro powr_mono) simp_all
      with lo small show False by (simp add: powr_minus)
    qed
    then have e': "e \<le> e'" "e' \<le> - 2" by (simp_all add: e'_def)
    have u': "u = 2 powr (of_int e' - 23)" by (simp add: u e'_def)
    have "a < 2 powr (of_int e' + 1)"
    proof -
      have "2 powr (of_int e + 1) \<le> (2::real) powr (of_int e' + 1)"
        using e'(1) by (intro powr_mono) simp_all
      with hi show ?thesis by linarith
    qed
    then have "a / u < 2 powr (of_int e' + 1) / u"
      using upos by (simp add: divide_strict_right_mono)
    moreover have "2 powr (of_int e' + 1) / u = 2 ^ 24"
      by (simp add: u' powr_diff [symmetric])
    ultimately have "a / u \<le> of_int (2 ^ 24)" by simp
    from rne_le [OF this] have "of_int (rne (a / u)) \<le> (2 ^ 24 :: real)"
      by (metis of_int_le_iff of_int_numeral of_int_power)
    then have "of_int (rne (a / u)) * u \<le> 2 ^ 24 * u"
      using upos by simp
    moreover have "2 ^ 24 * u = 2 powr (of_int e' + 1)"
      by (simp add: u' powr_diff powr_add)
    moreover have "2 powr (of_int e' + 1) \<le> (2::real) powr (- 1)"
      using e'(2) by (intro powr_mono) simp_all
    ultimately have "\<bar>float32 r\<bar> \<le> 1/2"
      using fl by (simp add: powr_minus)
    moreover have "a < 1 - 1/2^25"
      using small by simp
    ultimately show ?thesis by (simp add: a_def)
  qed
qed

text \<open>The float32 difference is below 1 exactly when the exact difference is below
  the midpoint between 1 and the float32 value before it.\<close>

lemma discrepancy_lt_one:
  "discrepancy p q < 1 \<longleftrightarrow> max \<bar>x p - x q\<bar> \<bar>y p - y q\<bar> < 1 - 1/2^25"
  by (simp only: discrepancy_def max_less_iff_conj float32_lt_one)

subsection \<open>Points and single tracks\<close>

lemma Point_eta: "Point (x p) (y p) = (p::point)"
  by (simp add: Point_def)

lemma points_addPoint: "points (addPoint tr a b) = points tr @ [Point a b]"
  by (simp add: addPoint_def Let_def)

lemma extendOne_extended: "extendOne m tr p = Inr (extended m tr p)"
  by (simp add: extendOne_def extended_def removeOldest_def Let_def points_addPoint
      split: list.splits)

lemma extendLoop_filter:
  "extendLoop m xs =
     Inr (map (\<lambda>(tr, p, g). extended m tr p) (filter (\<lambda>(tr, p, g). g) xs))"
  by (induction m xs rule: extendLoop.induct) (simp_all add: extendOne_extended)

text \<open>
  C7. Every Point operation is total, and in particular negation returns the point
  with both coordinates negated. The code does not do this: \<open>__neg__\<close> is declared
  with a second parameter, so the expression \<open>-p\<close> raises TypeError for every point.
\<close>

theorem unary_minus_raises: "unary_minus p = Inl TypeError"
  by (simp add: unary_minus_def Point_neg_def)

text \<open>
  C6. An extension that makes the number of points exceed the maximum length removes
  exactly one point, the oldest, and keeps the others in their order; otherwise the new
  point is appended and nothing is removed. The maximum of a new player is unbounded,
  and with it no point is removed.
\<close>

theorem trim_removes_oldest:
  "\<exists>tr'. extendOne m tr p = Inr tr' \<and>
     (enat (length (points tr) + 1) > m \<longrightarrow>
        points tr @ [p] = hd (points tr @ [p]) # points tr') \<and>
     (\<not> enat (length (points tr) + 1) > m \<longrightarrow> points tr' = points tr @ [p]) \<and>
     maxTrackLength (init_player i) = \<infinity> \<and>
     (m = \<infinity> \<longrightarrow> points tr' = points tr @ [p])"
  by (simp add: extendOne_extended extended_def Let_def points_addPoint numPoints_def
      Point_eta init_player_def)

theorem trim_removes_oldest_witness:
  "(\<exists>tr'. extendOne 2 trAB pC = Inr tr' \<and> points tr' = [pB, pC]) \<and>
   (\<exists>tr'. extendOne 3 trAB pC = Inr tr' \<and> points tr' = [pA, pB, pC]) \<and>
   (\<exists>tr'. extendOne \<infinity> trAB pC = Inr tr' \<and> points tr' = [pA, pB, pC])"
  using trim_removes_oldest [of 2 trAB pC 5] trim_removes_oldest [of 3 trAB pC 5]
    trim_removes_oldest [of \<infinity> trAB pC 5]
  by (auto simp add: trAB_def Track_def points_addPoint pA_def pB_def pC_def
      one_enat_def numeral_eq_enat)

subsection \<open>The extension step\<close>

lemma zip3_nth:
  "length ps = length ts \<Longrightarrow> length gs = length ts \<Longrightarrow>
   zip ts (zip ps gs) = map (\<lambda>i. (ts ! i, ps ! i, gs ! i)) [0..<length ts]"
  by (rule nth_equalityI) simp_all

lemma length_lastPoints: "lastPoints ts = Inr ps \<Longrightarrow> length ps = length ts"
  by (induction ts arbitrary: ps) (auto split: if_splits sum.splits)

lemma extendLoop_nth:
  assumes "length ps = length ts" and "length gs = length ts"
  shows "extendLoop m (zip ts (zip ps gs)) =
     Inr (map (\<lambda>i. extended m (ts ! i) (ps ! i)) (filter (\<lambda>i. gs ! i) [0..<length ts]))"
  by (simp add: extendLoop_filter zip3_nth [OF assms] filter_map comp_def)

text \<open>
  C1, as the code has it. When the estimation returns one point per track in both
  directions, the extension step keeps track number \<open>i\<close> exactly when its round-trip
  discrepancy, computed as the code computes it (the larger absolute value of the two
  float32 differences), is strictly below 1, whatever the status flags \<open>st\<close> and
  \<open>st'\<close> say: the new registry is the list of those tracks, in their order, each
  extended with its forward point (and trimmed); every other track is gone from the
  registry. In exact arithmetic the computed discrepancy is below 1 exactly when the
  larger absolute difference of the coordinates is below \<open>1 - 2 powr - 25\<close>: an
  exact difference from there up to 1 rounds to the float32 value 1 and the track is
  rejected.
\<close>

theorem consistency_filter:
  assumes "tracks self \<noteq> []"
    and "lastPoints (tracks self) = Inr p0"
    and "lkForward f p0 = Inr (p1, st)"
    and "lkBackward f p1 = Inr (p0r, st')"
    and "length p1 = length (tracks self)"
    and "length p0r = length (tracks self)"
  shows "extendTracks f self =
     (None, self\<lparr>tracks :=
        map (\<lambda>i. extended (maxTrackLength self) (tracks self ! i) (p1 ! i))
          (filter (\<lambda>i. discrepancy (p0 ! i) (p0r ! i) < 1) [0..<length (tracks self)])\<rparr>) \<and>
     (\<forall>i. discrepancy (p0 ! i) (p0r ! i) < 1 \<longleftrightarrow>
        max \<bar>x (p0 ! i) - x (p0r ! i)\<bar> \<bar>y (p0 ! i) - y (p0r ! i)\<bar> < 1 - 1/2^25)"
proof -
  have n: "length p0 = length (tracks self)"
    using assms(2) by (rule length_lastPoints)
  have d: "discrepancies p0 p0r = Inr (map (\<lambda>(p, q). discrepancy p q) (zip p0 p0r))"
    using n assms(6) by (simp add: discrepancies_def)
  let ?gs = "map (\<lambda>v. v < 1) (map (\<lambda>(p, q). discrepancy p q) (zip p0 p0r))"
  have lg: "length ?gs = length (tracks self)"
    using n assms(6) by simp
  have f: "filter (\<lambda>i. ?gs ! i) [0..<length (tracks self)] =
      filter (\<lambda>i. discrepancy (p0 ! i) (p0r ! i) < 1) [0..<length (tracks self)]"
    using n assms(6) by (intro filter_cong) simp_all
  have "extendTracks f self =
     (None, self\<lparr>tracks :=
        map (\<lambda>i. extended (maxTrackLength self) (tracks self ! i) (p1 ! i))
          (filter (\<lambda>i. discrepancy (p0 ! i) (p0r ! i) < 1) [0..<length (tracks self)])\<rparr>)"
    using assms(1)
    by (simp add: extendTracks_def assms(2,3,4) d extendLoop_nth [OF assms(5) lg] f
        del: map_map)
  then show ?thesis
    by (simp only: discrepancy_lt_one simp_thms)
qed

text \<open>
  On \<open>frEdge\<close> the first track (status false, discrepancy 0) is kept and the second
  (status true, discrepancy exactly 1) is removed. On \<open>frNear\<close> the exact difference
  is \<open>1 - 2 powr - 26\<close>, below 1; the computed discrepancy is 1 and the track is
  removed.
\<close>

theorem consistency_filter_witness:
  "tracks plTwo \<noteq> [] \<and> lastPoints (tracks plTwo) = Inr [pB, Point 5 5] \<and>
   lkForward frEdge [pB, Point 5 5] = Inr ([pC, Point 6 5], [False, True]) \<and>
   lkBackward frEdge [pC, Point 6 5] = Inr ([pB, Point 6 5], [True, True]) \<and>
   discrepancy pB pB = 0 \<and> discrepancy (Point 5 5) (Point 6 5) = 1 \<and>
   extendTracks frEdge plTwo = (None, plTwo\<lparr>tracks := [extended \<infinity> trAB pC]\<rparr>) \<and>
   tracks plNear \<noteq> [] \<and> lastPoints (tracks plNear) = Inr [pNear] \<and>
   lkForward frNear [pNear] = Inr ([Point (9/8) 0], [True]) \<and>
   lkBackward frNear [Point (9/8) 0] = Inr ([Point (9/8) 0], [True]) \<and>
   max \<bar>x pNear - x (Point (9/8) 0)\<bar> \<bar>y pNear - y (Point (9/8) 0)\<bar> = 1 - 1/2^26 \<and>
   discrepancy pNear (Point (9/8) 0) = 1 \<and>
   extendTracks frNear plNear = (None, plNear\<lparr>tracks := []\<rparr>)"
proof -
  have h: "tracks plTwo \<noteq> []" "lastPoints (tracks plTwo) = Inr [pB, Point 5 5]"
    "lkForward frEdge [pB, Point 5 5] = Inr ([pC, Point 6 5], [False, True])"
    "lkBackward frEdge [pC, Point 6 5] = Inr ([pB, Point 6 5], [True, True])"
    "length [pC, Point 6 5] = length (tracks plTwo)"
    "length [pB, Point 6 5] = length (tracks plTwo)"
    by (simp_all add: plTwo_def init_player_def trAB_def trD_def frEdge_def pB_def pC_def
        Track_def addPoint_def Point_def Let_def)
  have d: "discrepancy pB pB = 0" "discrepancy (Point 5 5) (Point 6 5) = 1"
    by (simp_all add: discrepancy_def Point_def float32_m1)
  have u: "[0..<length (tracks plTwo)] = [0, 1]"
    by (simp add: plTwo_def upt_rec)
  have k: "tracks plNear \<noteq> []" "lastPoints (tracks plNear) = Inr [pNear]"
    "lkForward frNear [pNear] = Inr ([Point (9/8) 0], [True])"
    "lkBackward frNear [Point (9/8) 0] = Inr ([Point (9/8) 0], [True])"
    "length [Point (9/8) 0] = length (tracks plNear)"
    "length [Point (9/8) 0] = length (tracks plNear)"
    by (simp_all add: plNear_def init_player_def frNear_def pNear_def
        Track_def addPoint_def Point_def Let_def)
  have m: "max \<bar>x pNear - x (Point (9/8) 0)\<bar> \<bar>y pNear - y (Point (9/8) 0)\<bar> = 1 - 1/2^26"
    by (simp add: pNear_def Point_def)
  have ex: "x pNear - x (Point (9/8) 0) = - (1 - 1/2^26)"
    and ey: "y pNear - y (Point (9/8) 0) = 0"
    by (simp_all add: pNear_def Point_def)
  have e: "discrepancy pNear (Point (9/8) 0) = 1"
    by (simp only: discrepancy_def ex ey float32_near_m1 float32_zero)
  have v: "[0..<length (tracks plNear)] = [0]"
    by (simp add: plNear_def)
  have a: "extendTracks frEdge plTwo = (None, plTwo\<lparr>tracks := [extended \<infinity> trAB pC]\<rparr>)"
    using consistency_filter [OF h] d
    by (simp add: u) (simp add: plTwo_def init_player_def)
  have b: "extendTracks frNear plNear = (None, plNear\<lparr>tracks := []\<rparr>)"
    using consistency_filter [OF k] e
    by (simp add: v)
  show ?thesis
    using h(1-4) d a k(1-4) m e b by simp
qed

text \<open>
  C1, as the specification has it, asks for the status flag as well. On \<open>frFlagFalse\<close>
  the only track has status false in both directions and discrepancy 0, and it is kept
  and extended with the forward point.
\<close>

theorem consistency_filter_ignores_status:
  "lastPoints (tracks plAB) = Inr [pB] \<and>
   lkForward frFlagFalse [pB] = Inr ([pC], [False]) \<and>
   lkBackward frFlagFalse [pC] = Inr ([pB], [False]) \<and>
   discrepancy pB pB < 1 \<and>
   map points (tracks (snd (extendTracks frFlagFalse plAB))) = [[pA, pB, pC]]"
  by (simp add: plAB_def init_player_def trAB_def frFlagFalse_def pA_def pB_def pC_def
      Track_def addPoint_def Point_def Point_sub_def numPoints_def extended_def
      discrepancies_def discrepancy_def extendTracks_def extendLoop_filter Let_def)

subsection \<open>Invariants of the registry\<close>

text \<open>
  C2. For every track of the registry the velocity list is one shorter than the list
  of points. The code breaks this as soon as a track is trimmed: \<open>removeOldest\<close> pops
  the oldest point and leaves the velocity list as it is. With a maximum length of 1,
  a track spawned at frame 0 and extended at frame 1 has one point and one velocity.
\<close>

theorem trim_breaks_velocity_length:
  "map (\<lambda>t. (length (points t), length (velocity t)))
     (tracks (snd (play [(0, frSpawn [pA]), (1, frKeep)]
        ((init_player 5)\<lparr>maxTrackLength := 1\<rparr>)))) = [(1, 1)]"
  by (simp add: init_player_def frSpawn_def frKeep_def pA_def one_enat_def
      Track_def addPoint_def Point_def Point_sub_def numPoints_def extended_def
      discrepancies_def discrepancy_def extendTracks_def extendLoop_filter Let_def
      discontinuity_def shouldDetect_def resetTracks_def getNewTracks_def
      trackFeatures_def drawExtra_def drawTrack_def)

text \<open>
  C3. The ids of the live tracks are pairwise distinct. The code takes the number of
  live tracks as the next id: two tracks spawned at frame 0 have ids 0 and 1, the
  first is rejected at frame 1, and the track spawned by the detection of frame 5
  receives id 1 again.
\<close>

theorem spawn_reuses_live_id:
  "map trackId (tracks (snd (play
      [(0, frSpawn [pA, pB]), (1, frDropFirst), (2, frKeep), (3, frKeep), (4, frKeep),
       (5, frSpawn [pC])] (init_player 5)))) = [1, 1]"
  by (simp add: init_player_def frSpawn_def frKeep_def frDropFirst_def pA_def pB_def pC_def
      float32_m9 Track_def addPoint_def Point_def Point_sub_def numPoints_def extended_def
      discrepancies_def discrepancy_def extendTracks_def extendLoop_filter Let_def
      discontinuity_def shouldDetect_def resetTracks_def getNewTracks_def
      trackFeatures_def drawExtra_def drawTrack_def)

subsection \<open>The tracking step\<close>

lemma spawnLoop_append:
  "spawnLoop ts cs = ts @ map (\<lambda>(i, c). addPoint (Track (int i)) (x c) (y c))
      (zip [length ts..<length ts + length cs] cs)"
proof (induction cs arbitrary: ts)
  case Nil
  then show ?case by simp
next
  case (Cons c cs)
  have "[length ts..<length ts + length (c # cs)] =
      length ts # [Suc (length ts)..<Suc (length ts) + length cs]"
    by (simp add: upt_rec)
  then show ?case
    using Cons.IH [of "ts @ [addPoint (Track (int (length ts))) (x c) (y c)]"]
    by (simp add: Let_def)
qed

lemma extendTracks_error: "extendTracks f self = (Some e, s') \<Longrightarrow> s' = self \<and> tracks self \<noteq> []"
  by (auto simp add: extendTracks_def Let_def extendLoop_filter split: if_splits sum.splits prod.splits)

lemma extendTracks_fields:
  "extendTracks f self = (r, s') \<Longrightarrow>
     posFrames s' = posFrames self \<and> lastFrameDrawn s' = lastFrameDrawn self \<and>
     maxTrackLength s' = maxTrackLength self \<and> detectionInterval s' = detectionInterval self
     \<and> lastDetectionFrame s' = lastDetectionFrame self"
  by (auto simp add: extendTracks_def Let_def extendLoop_filter split: if_splits sum.splits prod.splits)

lemma extendTracks_empty: "tracks self = [] \<Longrightarrow> extendTracks f self = (None, self)"
  by (simp add: extendTracks_def)

lemma shouldDetect_extendTracks:
  "extendTracks f self = (r, s') \<Longrightarrow> shouldDetect s' = shouldDetect self"
  by (drule extendTracks_fields) (simp add: shouldDetect_def)

text \<open>
  C4. The registry is reset exactly when the frame is the first one (no frame drawn
  yet, the initial \<open>lastFrameDrawn = -1\<close>), or the current frame index is below the
  last drawn one, or more than one above it. After a reset the frame is processed as
  if the registry had been empty: whatever the motion estimation would say about them,
  none of the earlier tracks is left, and the registry holds at most the tracks that
  the detection of this frame spawns. Without a discontinuity the tracks go to the
  extension step as they are.
\<close>

theorem reset_on_discontinuity:
  "(discontinuity self \<longleftrightarrow>
      lastFrameDrawn self = - 1 \<or> posFrames self < lastFrameDrawn self
      \<or> posFrames self - lastFrameDrawn self > 1) \<and>
   lastFrameDrawn (init_player i) = - 1 \<and>
   (discontinuity self \<longrightarrow>
      trackFeatures f self = trackFeatures f (self\<lparr>tracks := []\<rparr>) \<and>
      tracks (snd (trackFeatures f self)) =
        (case corners f of
           Inr (Some cs) \<Rightarrow> if shouldDetect self then spawnLoop [] cs else []
         | _ \<Rightarrow> [])) \<and>
   (\<not> discontinuity self \<longrightarrow>
      trackFeatures f self =
        (case extendTracks f self of
           (Some e, s2) \<Rightarrow> (Some e, s2)
         | (None, s2) \<Rightarrow> if shouldDetect s2 then getNewTracks f s2 else (None, s2)))"
proof -
  have a: "discontinuity (self\<lparr>tracks := []\<rparr>) = discontinuity self"
    by (simp add: discontinuity_def)
  have b: "shouldDetect (resetTracks self) = shouldDetect self"
    by (simp add: shouldDetect_def resetTracks_def)
  have c: "extendTracks f (resetTracks self) = (None, resetTracks self)"
    by (simp add: extendTracks_empty resetTracks_def)
  have "discontinuity self \<Longrightarrow> trackFeatures f self = trackFeatures f (self\<lparr>tracks := []\<rparr>)"
    by (simp add: trackFeatures_def a resetTracks_def)
  moreover have "discontinuity self \<Longrightarrow> tracks (snd (trackFeatures f self)) =
        (case corners f of
           Inr (Some cs) \<Rightarrow> if shouldDetect self then spawnLoop [] cs else []
         | _ \<Rightarrow> [])"
    by (simp add: trackFeatures_def c b getNewTracks_def) (simp add: resetTracks_def split: sum.splits option.splits)
  moreover have "\<not> discontinuity self \<Longrightarrow> trackFeatures f self =
        (case extendTracks f self of
           (Some e, s2) \<Rightarrow> (Some e, s2)
         | (None, s2) \<Rightarrow> if shouldDetect s2 then getNewTracks f s2 else (None, s2))"
    by (simp add: trackFeatures_def)
  ultimately show ?thesis
    by (simp add: discontinuity_def init_player_def)
qed

theorem reset_on_discontinuity_witness:
  "discontinuity plJump \<and> tracks plJump = [trAB] \<and> tracks (snd (trackFeatures frKeep plJump)) = [] \<and>
   \<not> discontinuity plAB \<and> tracks (snd (trackFeatures frKeep plAB)) = [extended \<infinity> trAB pB]"
  using reset_on_discontinuity [of plJump 5 frKeep] reset_on_discontinuity [of plAB 5 frKeep]
  by (simp add: plJump_def plAB_def init_player_def frKeep_def discontinuity_def shouldDetect_def
      trAB_def pB_def Track_def addPoint_def Point_def Point_sub_def numPoints_def extended_def
      discrepancies_def discrepancy_def extendTracks_def extendLoop_filter Let_def
      trackFeatures_def getNewTracks_def resetTracks_def)

subsection \<open>The detection schedule\<close>

lemma getNewTracks_fields:
  "getNewTracks f self = (None, s') \<Longrightarrow>
     posFrames s' = posFrames self \<and> detectionInterval s' = detectionInterval self \<and>
     lastDetectionFrame s' = posFrames self"
  by (auto simp add: getNewTracks_def Let_def split: sum.splits option.splits)

lemma trackFeatures_fields:
  assumes "trackFeatures f self = (None, s')"
  shows "posFrames s' = posFrames self \<and> detectionInterval s' = detectionInterval self \<and>
     lastDetectionFrame s' = (if shouldDetect self then posFrames self else lastDetectionFrame self)"
proof -
  let ?s1 = "if discontinuity self then resetTracks self else self"
  obtain r s2 where e: "extendTracks f ?s1 = (r, s2)"
    by (cases "extendTracks f ?s1")
  have s1: "posFrames ?s1 = posFrames self" "detectionInterval ?s1 = detectionInterval self"
    "lastDetectionFrame ?s1 = lastDetectionFrame self" "shouldDetect ?s1 = shouldDetect self"
    by (simp_all add: resetTracks_def shouldDetect_def)
  note f2 = extendTracks_fields [OF e] shouldDetect_extendTracks [OF e]
  show ?thesis
  proof (cases r)
    case (Some a)
    then show ?thesis using assms e by (simp add: trackFeatures_def)
  next
    case None
    show ?thesis
    proof (cases "shouldDetect self")
      case True
      then have "getNewTracks f s2 = (None, s')"
        using assms e None f2 s1 by (simp add: trackFeatures_def)
      from getNewTracks_fields [OF this] show ?thesis
        using True f2 s1 by simp
    next
      case False
      then have "s' = s2"
        using assms e None f2 s1 by (simp add: trackFeatures_def)
      then show ?thesis
        using False f2 s1 by simp
    qed
  qed
qed

lemma drawExtra_fields:
  assumes "drawExtra f self = (None, s')"
  shows "detectionInterval s' = detectionInterval self \<and>
     lastDetectionFrame s' = (if shouldDetect self then posFrames self else lastDetectionFrame self)"
proof -
  obtain r s1 where t: "trackFeatures f self = (r, s1)"
    by (cases "trackFeatures f self")
  with assms have "r = None" and "s' = s1\<lparr>lastFrameDrawn := posFrames s1\<rparr>"
    by (auto simp add: drawExtra_def split: option.splits)
  with trackFeatures_fields [of f self s1] t show ?thesis by simp
qed

lemma play_append:
  "play (fs @ gs) self =
     (case play fs self of (Some e, s1) \<Rightarrow> (Some e, s1) | (None, s1) \<Rightarrow> play gs s1)"
  by (induction fs self rule: play.induct) (auto split: prod.splits option.splits)

lemma cad_due: "0 < n \<Longrightarrow> (5 \<le> n - 5 * ((n - 1) div 5)) \<longleftrightarrow> n mod 5 = 0" for n :: int
  by presburger

lemma cad_last: "0 < n \<Longrightarrow> 5 \<le> n - 5 * ((n - 1) div 5) \<Longrightarrow> n = 5 * (n div 5)" for n :: int
  by presburger

lemma cad_keep:
  "0 < n \<Longrightarrow> \<not> 5 \<le> n - 5 * ((n - 1) div 5) \<Longrightarrow> 5 * ((n - 1) div 5) = 5 * (n div 5)"
  for n :: int
  by presburger

lemma cad_never: "5 * k \<noteq> (- 1 :: int)"
  by presburger

lemma play_cadence:
  "play (map (\<lambda>k. (int k, fs k)) [0..<n]) (init_player 5) = (None, s) \<Longrightarrow>
     detectionInterval s = 5 \<and>
     lastDetectionFrame s = (if n = 0 then - 1 else 5 * ((int n - 1) div 5))"
proof (induction n arbitrary: s)
  case 0
  then show ?case by (auto simp add: init_player_def)
next
  case (Suc n)
  let ?xs = "map (\<lambda>k. (int k, fs k)) [0..<n]"
  obtain r s0 where p: "play ?xs (init_player 5) = (r, s0)"
    by (cases "play ?xs (init_player 5)")
  from Suc.prems have q: "r = None" and d: "drawExtra (fs n) (s0\<lparr>posFrames := int n\<rparr>) = (None, s)"
    using p by (auto simp add: play_append split: option.splits prod.splits)
  from Suc.IH [of s0] p q have ih: "detectionInterval s0 = 5"
    "lastDetectionFrame s0 = (if n = 0 then - 1 else 5 * ((int n - 1) div 5))"
    by simp_all
  from drawExtra_fields [OF d] have di: "detectionInterval s = 5"
    and ld: "lastDetectionFrame s =
      (if shouldDetect (s0\<lparr>posFrames := int n\<rparr>) then int n else lastDetectionFrame s0)"
    using ih by simp_all
  show ?case
  proof (cases "n = 0")
    case True
    then show ?thesis using di ld ih by (simp add: shouldDetect_def)
  next
    case False
    then have pos: "0 < int n" by simp
    have sd: "shouldDetect (s0\<lparr>posFrames := int n\<rparr>) \<longleftrightarrow>
        5 \<le> int n - 5 * ((int n - 1) div 5)"
      using False ih by (simp add: shouldDetect_def cad_never)
    show ?thesis
    proof (cases "5 \<le> int n - 5 * ((int n - 1) div 5)")
      case True
      with cad_last [OF pos True] show ?thesis using di ld sd False ih by simp
    next
      case c: False
      with cad_keep [OF pos c] show ?thesis using di ld sd False ih by simp
    qed
  qed
qed

text \<open>
  C5. Detection is due exactly when the last detection frame is still the initial
  \<open>-1\<close> or at least \<open>detectionInterval\<close> frames have passed since. For a new
  player with interval 5 that plays the frames 0, 1, 2, ... without an exception:
  detection is due at frame \<open>n\<close> exactly when \<open>n\<close> is a multiple of 5, and after
  frame \<open>n\<close> the last detection frame is the largest multiple of 5 up to \<open>n\<close>, so
  detection ran at frames 0, 5, 10, ... and at no other frame.
\<close>

theorem detection_cadence:
  "(shouldDetect self \<longleftrightarrow>
      lastDetectionFrame self = - 1
      \<or> posFrames self - lastDetectionFrame self \<ge> detectionInterval self) \<and>
   lastDetectionFrame (init_player 5) = - 1 \<and>
   (play (map (\<lambda>k. (int k, fs k)) [0..<n]) (init_player 5) = (None, s) \<longrightarrow>
      (shouldDetect (s\<lparr>posFrames := int n\<rparr>) \<longleftrightarrow> int n mod 5 = 0)) \<and>
   (play (map (\<lambda>k. (int k, fs k)) [0..<Suc n]) (init_player 5) = (None, s') \<longrightarrow>
      lastDetectionFrame s' = 5 * (int n div 5))"
proof -
  have "shouldDetect (s\<lparr>posFrames := int n\<rparr>) \<longleftrightarrow> int n mod 5 = 0"
    if "play (map (\<lambda>k. (int k, fs k)) [0..<n]) (init_player 5) = (None, s)"
  proof (cases "n = 0")
    case True
    then show ?thesis using play_cadence [OF that] by (simp add: shouldDetect_def)
  next
    case False
    then have pos: "0 < int n" by simp
    show ?thesis
      using play_cadence [OF that] False cad_due [OF pos]
      by (simp add: shouldDetect_def cad_never)
  qed
  moreover have "lastDetectionFrame s' = 5 * (int n div 5)"
    if "play (map (\<lambda>k. (int k, fs k)) [0..<Suc n]) (init_player 5) = (None, s')"
    using play_cadence [OF that] by simp
  ultimately show ?thesis
    by (simp add: shouldDetect_def init_player_def)
qed

theorem detection_cadence_witness:
  "play (map (\<lambda>k. (int k, frSpawn [pA])) [0..<2]) (init_player 5) =
     (None, snd (play [(0, frSpawn [pA]), (1, frSpawn [pA])] (init_player 5))) \<and>
   \<not> shouldDetect
     ((snd (play [(0, frSpawn [pA]), (1, frSpawn [pA])] (init_player 5)))\<lparr>posFrames := 2\<rparr>) \<and>
   lastDetectionFrame (snd (play [(0, frSpawn [pA]), (1, frSpawn [pA])] (init_player 5))) = 0"
proof -
  have u: "[0..<2] = [0, 1]" "[0..<Suc 1] = [0, 1]"
    by (simp_all add: upt_rec)
  have p: "play (map (\<lambda>k. (int k, frSpawn [pA])) [0..<2]) (init_player 5) =
     (None, snd (play [(0, frSpawn [pA]), (1, frSpawn [pA])] (init_player 5)))"
    by (simp add: u init_player_def frSpawn_def pA_def Track_def addPoint_def Point_def
      Point_sub_def numPoints_def extended_def discrepancies_def discrepancy_def
      extendTracks_def extendLoop_filter Let_def discontinuity_def shouldDetect_def
      resetTracks_def getNewTracks_def trackFeatures_def drawExtra_def drawTrack_def)
  show ?thesis
    using p
      detection_cadence [where fs = "\<lambda>k. frSpawn [pA]" and n = 2 and
        s = "snd (play [(0, frSpawn [pA]), (1, frSpawn [pA])] (init_player 5))"]
      detection_cadence [where fs = "\<lambda>k. frSpawn [pA]" and n = 1 and
        s' = "snd (play [(0, frSpawn [pA]), (1, frSpawn [pA])] (init_player 5))"]
    by (simp add: u)
qed

subsection \<open>Exceptions of the OpenCV calls\<close>

text \<open>
  C8, as the specification has it, promises the registry of before the frame after any
  failure. On \<open>frDetectFails\<close> the detection raises at a frame where it is due: the
  exception reaches the caller, and the only track has already been extended with the
  point of this frame.
\<close>

theorem detection_failure_keeps_extension:
  "fst (trackFeatures frDetectFails plDue) = Some CapabilityError \<and>
   map points (tracks plDue) = [[pA, pB]] \<and>
   map points (tracks (snd (trackFeatures frDetectFails plDue))) = [[pA, pB, pB]]"
  by (simp add: plDue_def init_player_def trAB_def frDetectFails_def pA_def pB_def
      Track_def addPoint_def Point_def Point_sub_def numPoints_def extended_def
      discrepancies_def discrepancy_def extendTracks_def extendLoop_filter Let_def
      discontinuity_def shouldDetect_def resetTracks_def getNewTracks_def trackFeatures_def)

text \<open>
  C8, as the code has it. When the forward or the backward motion estimation raises,
  the exception reaches the caller and the player, registry included, is exactly as
  before the frame (the estimation is only called when there was no reset: after a
  reset the registry is empty and the extension step does nothing). When the detection
  raises, the exception reaches the caller, no track is spawned and the last detection
  frame is not updated, and the registry is as the reset and the extension step of this
  frame left it.
\<close>

theorem capability_failure:
  "(\<not> discontinuity self \<and> tracks self \<noteq> [] \<and> lastPoints (tracks self) = Inr p0 \<and>
      (lkForward f p0 = Inl e \<or> (lkForward f p0 = Inr (p1, st) \<and> lkBackward f p1 = Inl e))
      \<longrightarrow> trackFeatures f self = (Some e, self)) \<and>
   (discontinuity self \<longrightarrow>
      extendTracks f (resetTracks self) = (None, resetTracks self)) \<and>
   (extendTracks f (if discontinuity self then resetTracks self else self) = (None, s2) \<and>
      shouldDetect self \<and> corners f = Inl e'
      \<longrightarrow> trackFeatures f self = (Some e', s2))"
proof -
  have "trackFeatures f self = (Some e, self)"
    if "\<not> discontinuity self" "tracks self \<noteq> []" "lastPoints (tracks self) = Inr p0"
      "lkForward f p0 = Inl e \<or> (lkForward f p0 = Inr (p1, st) \<and> lkBackward f p1 = Inl e)"
  proof -
    have "extendTracks f self = (Some e, self)"
      using that by (auto simp add: extendTracks_def)
    then show ?thesis using that(1) by (simp add: trackFeatures_def)
  qed
  moreover have "extendTracks f (resetTracks self) = (None, resetTracks self)"
    by (simp add: extendTracks_empty resetTracks_def)
  moreover have "trackFeatures f self = (Some e', s2)"
    if h: "extendTracks f (if discontinuity self then resetTracks self else self) = (None, s2)"
      "shouldDetect self" "corners f = Inl e'"
  proof -
    have "shouldDetect s2"
      using shouldDetect_extendTracks [OF h(1)] h(2)
      by (simp add: shouldDetect_def resetTracks_def split: if_splits)
    then show ?thesis
      using h by (simp add: trackFeatures_def getNewTracks_def)
  qed
  ultimately show ?thesis by blast
qed

theorem capability_failure_witness:
  "\<not> discontinuity plDue \<and> tracks plDue \<noteq> [] \<and> lastPoints (tracks plDue) = Inr [pB] \<and>
   lkForward frFlowFails [pB] = Inr ([pB], [True]) \<and> lkBackward frFlowFails [pB] = Inl CapabilityError \<and>
   trackFeatures frFlowFails plDue = (Some CapabilityError, plDue) \<and>
   shouldDetect plDue \<and> corners frDetectFails = Inl CapabilityError \<and>
   extendTracks frDetectFails plDue = (None, plDue\<lparr>tracks := [extended \<infinity> trAB pB]\<rparr>) \<and>
   trackFeatures frDetectFails plDue =
     (Some CapabilityError, plDue\<lparr>tracks := [extended \<infinity> trAB pB]\<rparr>)"
proof -
  have h: "\<not> discontinuity plDue" "tracks plDue \<noteq> []" "lastPoints (tracks plDue) = Inr [pB]"
    "lkForward frFlowFails [pB] = Inr ([pB], [True])"
    "lkBackward frFlowFails [pB] = Inl CapabilityError"
    "shouldDetect plDue" "corners frDetectFails = Inl CapabilityError"
    by (simp_all add: plDue_def init_player_def trAB_def frFlowFails_def frDetectFails_def
        pB_def Track_def addPoint_def Point_def Let_def discontinuity_def shouldDetect_def)
  have x: "extendTracks frDetectFails plDue = (None, plDue\<lparr>tracks := [extended \<infinity> trAB pB]\<rparr>)"
    by (simp add: plDue_def init_player_def trAB_def frDetectFails_def pB_def
      Track_def addPoint_def Point_def Point_sub_def numPoints_def extended_def
      discrepancies_def discrepancy_def extendTracks_def extendLoop_filter Let_def)
  show ?thesis
    using h x
      capability_failure [where self = plDue and f = frFlowFails and ?p0.0 = "[pB]" and
        ?p1.0 = "[pB]" and st = "[True]" and e = CapabilityError]
      capability_failure [where self = plDue and f = frDetectFails and e' = CapabilityError
        and ?s2.0 = "plDue\<lparr>tracks := [extended \<infinity> trAB pB]\<rparr>"]
    by simp
qed

subsection \<open>Order of the registry\<close>

lemma subseq_zip_filter: "subseq (map fst (filter P (zip xs ys))) xs"
proof (induction xs arbitrary: ys)
  case Nil
  then show ?case by simp
next
  case (Cons a xs)
  then show ?case by (cases ys) (auto intro: subseq_Cons2)
qed

lemma zip_two_maps: "zip (map g xs) (map h xs) = map (\<lambda>z. (g z, h z)) xs"
  by (induction xs) simp_all

lemma extendLoop_kept:
  "\<exists>kept ps. subseq kept ts \<and> length ps = length kept \<and>
     extendLoop m (zip ts zs) = Inr (map (\<lambda>(tr, p). extended m tr p) (zip kept ps))"
proof -
  let ?fl = "filter (\<lambda>(tr, p, g). g) (zip ts zs)"
  have "subseq (map fst ?fl) ts"
    by (rule subseq_zip_filter)
  moreover have "length (map (fst \<circ> snd) ?fl) = length (map fst ?fl)"
    by simp
  moreover have "extendLoop m (zip ts zs) =
      Inr (map (\<lambda>(tr, p). extended m tr p) (zip (map fst ?fl) (map (fst \<circ> snd) ?fl)))"
    by (simp add: extendLoop_filter zip_two_maps comp_def case_prod_beta)
  ultimately show ?thesis by blast
qed

lemma extendLoop_kept_result:
  assumes "extendLoop m (zip ts zs) = Inr nt"
  shows "\<exists>kept ps. subseq kept ts \<and> length ps = length kept \<and>
     nt = map (\<lambda>(tr, p). extended m tr p) (zip kept ps)"
  using extendLoop_kept [of ts m zs] assms by auto

lemma extendTracks_kept:
  assumes "extendTracks f self = (None, s2)"
  shows "\<exists>kept ps. subseq kept (tracks self) \<and> length ps = length kept \<and>
     s2 = self\<lparr>tracks := map (\<lambda>(tr, p). extended (maxTrackLength self) tr p) (zip kept ps)\<rparr>"
proof (cases "tracks self = []")
  case True
  then have "s2 = self\<lparr>tracks := map (\<lambda>(tr, p). extended (maxTrackLength self) tr p) (zip [] [])\<rparr>"
    using assms by (simp add: extendTracks_def)
  then show ?thesis
    by (metis list.size(3) list_emb_Nil)
next
  case False
  with assms show ?thesis
    by (auto simp add: extendTracks_def Let_def split: sum.splits prod.splits
        dest!: extendLoop_kept_result)
qed

text \<open>
  C9. After a tracking step that raised nothing, the registry is: the tracks that
  the consistency filter kept, a subsequence \<open>kept\<close> of the registry of before the
  step and in the same order, each extended with its new point; followed by the tracks
  spawned by the detection of this frame, one per corner.
\<close>

theorem order_preserved:
  assumes "trackFeatures f self = (None, s')"
  shows "\<exists>kept ps. subseq kept (tracks self) \<and> length ps = length kept \<and>
     tracks s' =
       map (\<lambda>(tr, p). extended (maxTrackLength self) tr p) (zip kept ps) @
       (if shouldDetect self then
          (case corners f of
             Inr (Some cs) \<Rightarrow>
               map (\<lambda>(i, c). addPoint (Track (int i)) (x c) (y c))
                 (zip [length kept..<length kept + length cs] cs)
           | _ \<Rightarrow> [])
        else [])"
proof -
  let ?s1 = "if discontinuity self then resetTracks self else self"
  obtain r s2 where e: "extendTracks f ?s1 = (r, s2)"
    by (cases "extendTracks f ?s1")
  with assms have r: "r = None"
    by (cases r) (simp_all add: trackFeatures_def)
  from extendTracks_kept [OF e [unfolded r]] obtain kept ps where
    k: "subseq kept (tracks ?s1)" "length ps = length kept"
    "s2 = ?s1\<lparr>tracks := map (\<lambda>(tr, p). extended (maxTrackLength ?s1) tr p) (zip kept ps)\<rparr>"
    by blast
  have m: "maxTrackLength ?s1 = maxTrackLength self"
    by (simp add: resetTracks_def)
  have sub: "subseq kept (tracks self)"
    using k(1) by (auto simp add: resetTracks_def dest: list_emb_Nil2 split: if_splits)
  have t2: "tracks s2 = map (\<lambda>(tr, p). extended (maxTrackLength self) tr p) (zip kept ps)"
    using k(3) m by simp
  have l2: "length (tracks s2) = length kept"
    using t2 k(2) by simp
  have sd: "shouldDetect s2 = shouldDetect self"
    using shouldDetect_extendTracks [OF e] by (simp add: shouldDetect_def resetTracks_def split: if_splits)
  have "tracks s' = tracks s2 @
       (if shouldDetect self then
          (case corners f of
             Inr (Some cs) \<Rightarrow>
               map (\<lambda>(i, c). addPoint (Track (int i)) (x c) (y c))
                 (zip [length kept..<length kept + length cs] cs)
           | _ \<Rightarrow> [])
        else [])"
    using assms e r sd l2
    by (auto simp add: trackFeatures_def getNewTracks_def spawnLoop_append
        split: sum.splits option.splits)
  with sub k(2) t2 show ?thesis by auto
qed

theorem order_preserved_witness:
  "trackFeatures (frSpawn [pC]) plTwoDue =
     (None, plTwoDue\<lparr>lastDetectionFrame := 5,
        tracks := [extended \<infinity> trAB pB, extended \<infinity> trD (Point 5 5),
                   addPoint (Track 2) 2 1]\<rparr>) \<and>
   (\<exists>kept ps. subseq kept [trAB, trD] \<and> length ps = length kept \<and>
      [extended \<infinity> trAB pB, extended \<infinity> trD (Point 5 5), addPoint (Track 2) 2 1] =
        map (\<lambda>(tr, p). extended \<infinity> tr p) (zip kept ps) @
        map (\<lambda>(i, c). addPoint (Track (int i)) (x c) (y c))
          (zip [length kept..<length kept + 1] [pC]))"
proof -
  have h: "trackFeatures (frSpawn [pC]) plTwoDue =
     (None, plTwoDue\<lparr>lastDetectionFrame := 5,
        tracks := [extended \<infinity> trAB pB, extended \<infinity> trD (Point 5 5),
                   addPoint (Track 2) 2 1]\<rparr>)"
    by (simp add: plTwoDue_def init_player_def trAB_def trD_def frSpawn_def pB_def pC_def
      Track_def addPoint_def Point_def Point_sub_def numPoints_def extended_def
      discrepancies_def discrepancy_def extendTracks_def extendLoop_filter Let_def
      discontinuity_def shouldDetect_def resetTracks_def getNewTracks_def trackFeatures_def)
  have s: "shouldDetect plTwoDue" "corners (frSpawn [pC]) = Inr (Some [pC])"
    "tracks plTwoDue = [trAB, trD]" "maxTrackLength plTwoDue = \<infinity>"
    by (simp_all add: plTwoDue_def init_player_def shouldDetect_def frSpawn_def)
  show ?thesis
    using order_preserved [OF h] h by (simp add: s)
qed

subsection \<open>Detection without corners\<close>

text \<open>
  C10. A detection that finds no corner (the result is \<open>None\<close> or an empty array)
  spawns nothing and still records the current frame as the last detection frame; from
  there, detection is not due at any frame less than \<open>detectionInterval\<close> frames
  later.
\<close>

theorem empty_detection_postpones:
  assumes "corners f = Inr None \<or> corners f = Inr (Some [])"
  shows "getNewTracks f self = (None, self\<lparr>lastDetectionFrame := posFrames self\<rparr>) \<and>
    (shouldDetect self \<and> tracks self = [] \<longrightarrow>
       trackFeatures f self = (None, self\<lparr>lastDetectionFrame := posFrames self\<rparr>)) \<and>
    (0 \<le> posFrames self \<and> posFrames self \<le> j \<and> j < posFrames self + detectionInterval self
       \<longrightarrow> \<not> shouldDetect (self\<lparr>lastDetectionFrame := posFrames self, posFrames := j\<rparr>))"
proof -
  have g: "getNewTracks f self = (None, self\<lparr>lastDetectionFrame := posFrames self\<rparr>)"
    using assms by (auto simp add: getNewTracks_def)
  have "trackFeatures f self = (None, self\<lparr>lastDetectionFrame := posFrames self\<rparr>)"
    if "shouldDetect self" "tracks self = []"
  proof -
    have "(if discontinuity self then resetTracks self else self) = self"
      using that(2) by (simp add: resetTracks_def)
    then show ?thesis
      using that g by (simp add: trackFeatures_def extendTracks_empty)
  qed
  then show ?thesis
    using g by (auto simp add: shouldDetect_def)
qed

theorem empty_detection_postpones_witness:
  "corners frEmpty = Inr (Some []) \<and>
   getNewTracks frEmpty plDue = (None, plDue\<lparr>lastDetectionFrame := 5\<rparr>) \<and>
   \<not> shouldDetect (plDue\<lparr>lastDetectionFrame := 5, posFrames := 9\<rparr>) \<and>
   shouldDetect (plDue\<lparr>lastDetectionFrame := 5, posFrames := 10\<rparr>) \<and>
   trackFeatures frEmpty (init_player 5) = (None, (init_player 5)\<lparr>lastDetectionFrame := 0\<rparr>)"
proof -
  have c: "corners frEmpty = Inr None \<or> corners frEmpty = Inr (Some [])"
    by (simp add: frEmpty_def)
  have d: "shouldDetect (plDue\<lparr>lastDetectionFrame := 5, posFrames := 10\<rparr>)"
    by (simp add: plDue_def init_player_def shouldDetect_def)
  show ?thesis
    using empty_detection_postpones [OF c, of plDue 9]
      empty_detection_postpones [OF c, of "init_player 5" 0] d
    by (simp add: frEmpty_def plDue_def init_player_def shouldDetect_def)
qed

end
